theory Spec2Isabelle
  imports
    Main
    "HOL-Library.Char_ord"
    "HOL-Library.List_Lexorder"
    "HOL-Library.Multiset"
    "HOL-Library.AList"
begin

section \<open>Validation primitives (download/configure/validate)\<close>

text \<open>
  Python strings are modelled as \<open>string\<close> (a list of 8-bit characters). The library
  functions \<open>str.isspace\<close>, \<open>str.strip\<close> and \<open>int\<close> are modelled on ASCII input: the
  whitespace characters are the ASCII ones that \<open>str.isspace\<close> accepts, and the digits are
  \<open>0\<close> to \<open>9\<close>.
\<close>

definition is_space :: "char \<Rightarrow> bool" where
  "is_space c = (c \<in> set [CHR 0x09, CHR 0x0A, CHR 0x0B, CHR 0x0C, CHR 0x0D,
                            CHR 0x1C, CHR 0x1D, CHR 0x1E, CHR 0x1F, CHR '' ''])"

definition isspace :: "string \<Rightarrow> bool" where
  "isspace s = (s \<noteq> [] \<and> list_all is_space s)"

definition strip :: "string \<Rightarrow> string" where
  "strip s = rev (dropWhile is_space (rev (dropWhile is_space s)))"

definition is_digit :: "char \<Rightarrow> bool" where
  "is_digit c = (c \<in> set ''0123456789'')"

definition digit_val :: "char \<Rightarrow> int" where
  "digit_val c = int (of_char c) - 48"

text \<open>
  \<open>int(s)\<close> for a string: surrounding whitespace is stripped, one sign is allowed, and
  the digits may be separated by single underscores. \<open>None\<close> stands for the
  \<open>ValueError\<close> that \<open>int\<close> raises.
\<close>

fun parse_digits :: "int \<Rightarrow> string \<Rightarrow> int option" where
  "parse_digits acc [] = Some acc"
| "parse_digits acc [c] = (if is_digit c then Some (10 * acc + digit_val c) else None)"
| "parse_digits acc (c # d # cs) =
     (if is_digit c then parse_digits (10 * acc + digit_val c) (d # cs)
      else if c = CHR ''_'' \<and> is_digit d then parse_digits (10 * acc + digit_val d) cs
      else None)"

definition parse_unsigned :: "string \<Rightarrow> int option" where
  "parse_unsigned u =
     (case u of
        [] \<Rightarrow> None
      | c # cs \<Rightarrow> if is_digit c then parse_digits (digit_val c) cs else None)"

definition py_int :: "string \<Rightarrow> int option" where
  "py_int s =
     (case strip s of
        [] \<Rightarrow> None
      | c # cs \<Rightarrow>
          if c = CHR ''-'' then map_option uminus (parse_unsigned cs)
          else if c = CHR ''+'' then parse_unsigned cs
          else parse_unsigned (c # cs))"

text \<open>\<open>s.split(sep)\<close> for a separator of one character.\<close>

fun split :: "char \<Rightarrow> string \<Rightarrow> string list" where
  "split sep [] = [[]]"
| "split sep (c # cs) =
     (if c = sep then [] # split sep cs
      else (case split sep cs of
              [] \<Rightarrow> [[c]]
            | w # ws \<Rightarrow> (c # w) # ws))"

text \<open>\<open>utils.empty_value\<close>, on a string argument (every call the handlers make).\<close>

definition empty_value :: "string \<Rightarrow> bool" where
  "empty_value val = (isspace val \<or> length val = 0)"

text \<open>
  \<open>utils.validate_year\<close>. The current year, read from the clock by
  \<open>datetime.date.today().year\<close>, is the parameter \<open>curr_year\<close>.
\<close>

definition validate_year :: "int \<Rightarrow> string \<Rightarrow> bool" where
  "validate_year curr_year year =
     (case py_int year of
        None \<Rightarrow> False
      | Some int_year \<Rightarrow> 1990 \<le> int_year \<and> int_year \<le> curr_year)"

datatype validation_error =
    EmptyValError
  | InvalidSpaceError
  | InvalidNumberOfSymbolsError
  | InvalidYearError
  | InvalidGeomServerError
  | InvalidValueFormatOrContentError
  | IndexError

text \<open>
  \<open>utils.string_contains_year\<close>: \<open>string.split("_")[1]\<close> raises \<open>IndexError\<close> when the
  string has no underscore.
\<close>

definition string_contains_year :: "int \<Rightarrow> string \<Rightarrow> validation_error + bool" where
  "string_contains_year curr_year s =
     (let parts = split CHR ''_'' s in
      if length parts < 2 then Inl IndexError
      else Inr (list_all (validate_year curr_year) (split CHR ''-'' (parts ! 1))))"

definition string_contains_space :: "string \<Rightarrow> bool" where
  "string_contains_space s = (length s > length (filter (\<lambda>c. c \<noteq> CHR '' '') s))"

definition invalid_symbol_count :: "string \<Rightarrow> char \<Rightarrow> nat \<Rightarrow> bool" where
  "invalid_symbol_count s symbol occurences = (length (split symbol s) \<noteq> occurences + 1)"

definition validate_output_filename :: "int \<Rightarrow> string \<Rightarrow> validation_error + string" where
  "validate_output_filename curr_year filename =
     (if empty_value filename then Inl EmptyValError
      else if string_contains_space filename then Inl InvalidSpaceError
      else if invalid_symbol_count filename CHR ''_'' 1 then Inl InvalidNumberOfSymbolsError
      else (case string_contains_year curr_year filename of
              Inl e \<Rightarrow> Inl e
            | Inr ok \<Rightarrow> if \<not> ok then Inl InvalidYearError else Inr filename))"


section \<open>Paginated retrieval (download/process/util.py)\<close>

text \<open>
  The parameters of a request are a Python \<open>dict\<close> with values of type
  \<open>Union[str, int, None]\<close>, kept as an association list in insertion order.
  \<open>encode_params\<close> drops the entries whose value is \<open>None\<close>; the percent-encoding
  of \<open>urlencode\<close> is left out, so a request is the URL prefix together with the
  populated parameters.
\<close>

datatype param = Str string | Num int | Null

type_synonym params = "(string \<times> param) list"

type_synonym request = "string \<times> params"

definition encode_params :: "params \<Rightarrow> params" where
  "encode_params api_params = filter (\<lambda>(key, val). val \<noteq> Null) api_params"

text \<open>
  The upstream API. \<open>get_response_from_url\<close> returns \<open>(None, False)\<close> on a transport
  failure and \<open>(resp, True)\<close> otherwise; \<open>resp.json()\<close> then either raises or gives a
  JSON object, of which the code reads the key \<open>features\<close> only. The API is a mock that
  answers the \<open>k\<close>-th request made since the start of the run with \<open>api k\<close>; the
  requests issued are recorded in a log, whose length is that counter. A geometry
  collection (\<open>GeoDataFrame\<close>) is the list of its features.
\<close>

datatype 'f json = Json (features: "'f list option")

datatype 'f fetched = Fetch_failed | Not_json | Fetched "'f json"

type_synonym 'f api = "nat \<Rightarrow> 'f fetched"

datatype py_error =
    UnboundLocalError
  | KeyError string
  | JSONDecodeError
  | ValueError string
  | FileNotFoundError string
  | FileExistsError string

datatype 'f retry_exit =
    Return "'f list option \<times> bool"
  | Raise py_error
  | Proceed "'f json option"

text \<open>
  The inner loop \<open>for retry in range(1, max_retries + 1)\<close>, over the list of the values
  of \<open>retry\<close>. The variable \<open>ret_json\<close> is unbound (\<open>None\<close>) until its first assignment
  and keeps its value when the loop is left by \<open>break\<close> or by exhaustion.
\<close>

fun retry_loop ::
  "'f api \<Rightarrow> request \<Rightarrow> int \<Rightarrow> 'f json option \<Rightarrow> request list \<Rightarrow> int list
     \<Rightarrow> 'f retry_exit \<times> request list" where
  "retry_loop api url_params max_retries ret_json log [] = (Proceed ret_json, log)"
| "retry_loop api url_params max_retries ret_json log (retry # retries) =
     (case api (length log) of
        Fetch_failed \<Rightarrow> (Return (None, False), log @ [url_params])
      | Not_json \<Rightarrow> (Raise JSONDecodeError, log @ [url_params])
      | Fetched j \<Rightarrow>
          if features j \<noteq> None then (Proceed (Some j), log @ [url_params])
          else if retry = max_retries then (Return (None, False), log @ [url_params])
          else retry_loop api url_params max_retries (Some j) (log @ [url_params]) retries)"

definition from_features :: "'f json \<Rightarrow> 'f list" where
  "from_features ret = (case features ret of None \<Rightarrow> [] | Some fs \<Rightarrow> fs)"

definition combine :: "'f json list \<Rightarrow> 'f list" where
  "combine raw_data = foldl (\<lambda>gdf ret. gdf @ from_features ret) [] raw_data"

text \<open>
  The outer loop \<open>while True\<close>. It does not return while the API keeps sending pages
  with features and the offset is not zero, so it is a partial function: \<open>None\<close> is a
  run that never returns.
\<close>

partial_function (option) page_loop ::
  "'f api \<Rightarrow> int \<Rightarrow> string \<Rightarrow> int \<Rightarrow> params \<Rightarrow> int \<Rightarrow> 'f json list \<Rightarrow> 'f json option
     \<Rightarrow> request list \<Rightarrow> ((py_error + 'f list option \<times> bool) \<times> request list) option" where
  "page_loop api offs base_url max_retries api_params iteration raw_data ret_json log =
     (let api_params' = AList.update ''resultOffset'' (Num (offs * (iteration - 1))) api_params
      in case retry_loop api (base_url, encode_params api_params') max_retries ret_json log
                [1..max_retries] of
           (Return r, log') \<Rightarrow> Some (Inr r, log')
         | (Raise e, log') \<Rightarrow> Some (Inl e, log')
         | (Proceed None, log') \<Rightarrow> Some (Inl UnboundLocalError, log')
         | (Proceed (Some j), log') \<Rightarrow>
             (case features j of
                None \<Rightarrow> Some (Inl (KeyError ''features''), log')
              | Some fs \<Rightarrow>
                  if fs = [] then Some (Inr (Some (combine raw_data), True), log')
                  else if offs = 0
                    then Some (Inr (Some (combine (raw_data @ [j])), True), log')
                  else page_loop api offs base_url max_retries api_params' (iteration + 1)
                         (raw_data @ [j]) (Some j) log'))"

declare page_loop.simps [code]

definition iterative_geo_api_retrieve ::
  "'f api \<Rightarrow> request list \<Rightarrow> params \<Rightarrow> int \<Rightarrow> string \<Rightarrow> int
     \<Rightarrow> ((py_error + 'f list option \<times> bool) \<times> request list) option" where
  "iterative_geo_api_retrieve api log api_params offs base_url max_retries =
     page_loop api offs base_url max_retries api_params 1 [] None log"


section \<open>The file store\<close>

text \<open>
  The file system is an external collaborator. It is modelled as the list of the paths
  that exist, each path being the string that \<open>str(Path)\<close> gives, together with the log
  of the requests sent to the API. Path segments are joined with \<open>/\<close>. The calls
  \<open>unlink\<close> and \<open>rename\<close> are modelled as they act on regular files.
\<close>

record world =
  files :: "string list"
  requests :: "request list"

text \<open>\<open>Path.name\<close> and \<open>Path.stem\<close>: the last segment, and that segment without its
  last suffix (a leading or a trailing dot starts no suffix).\<close>

definition name :: "string \<Rightarrow> string" where
  "name p = rev (takeWhile (\<lambda>c. c \<noteq> CHR ''/'') (rev p))"

definition stem :: "string \<Rightarrow> string" where
  "stem p =
     (let n = name p;
          suffix_len = length (takeWhile (\<lambda>c. c \<noteq> CHR ''.'') (rev n));
          i = length n - suffix_len - 1
      in if CHR ''.'' \<in> set n \<and> 0 < i \<and> i < length n - 1 then take i n else n)"

text \<open>\<open>root.glob("**/*.*")\<close>: the paths below \<open>root\<close>, at any depth, whose name contains a
  dot. The order of the result is the order of the listing; no caller depends on it.\<close>

definition below :: "string \<Rightarrow> string \<Rightarrow> bool" where
  "below root p =
     (Suc (length root) < length p \<and> take (Suc (length root)) p = root @ ''/'')"

definition glob :: "string \<Rightarrow> world \<Rightarrow> string list" where
  "glob root w = filter (\<lambda>p. below root p \<and> CHR ''.'' \<in> set (name p)) (files w)"

text \<open>The test \<open>sub in s\<close> on strings.\<close>

fun starts_with :: "string \<Rightarrow> string \<Rightarrow> bool" where
  "starts_with [] s = True"
| "starts_with (c # cs) [] = False"
| "starts_with (c # cs) (d # ds) = (c = d \<and> starts_with cs ds)"

fun is_in :: "string \<Rightarrow> string \<Rightarrow> bool" where
  "is_in sub [] = (sub = [])"
| "is_in sub (c # cs) = (starts_with sub (c # cs) \<or> is_in sub cs)"

definition create :: "string \<Rightarrow> world \<Rightarrow> world" where
  "create p w = (if p \<in> set (files w) then w else w\<lparr>files := files w @ [p]\<rparr>)"

definition unlink :: "string \<Rightarrow> world \<Rightarrow> py_error + world" where
  "unlink p w =
     (if p \<in> set (files w) then Inr (w\<lparr>files := removeAll p (files w)\<rparr>)
      else Inl (FileNotFoundError p))"

definition rename :: "string \<Rightarrow> string \<Rightarrow> world \<Rightarrow> py_error + world" where
  "rename p target w =
     (if p \<in> set (files w) then Inr (create target (w\<lparr>files := removeAll p (files w)\<rparr>))
      else Inl (FileNotFoundError p))"

text \<open>\<open>util.delete_data\<close> and \<open>util.archive_data\<close>. An exception leaves the store as it is
  at that moment. The directory \<open>Paths.ARCHIVE_DATA_DIR\<close> and the formatted clock reading
  \<open>time\<close> are parameters; \<open>mkdir(parents=True)\<close> raises when the directory exists.\<close>

fun delete_data :: "string list \<Rightarrow> world \<Rightarrow> py_error option \<times> world" where
  "delete_data [] w = (None, w)"
| "delete_data (file # to_delete) w =
     (case unlink file w of
        Inl e \<Rightarrow> (Some e, w)
      | Inr w' \<Rightarrow> delete_data to_delete w')"

fun archive_files :: "string \<Rightarrow> string list \<Rightarrow> world \<Rightarrow> py_error option \<times> world" where
  "archive_files archive_path [] w = (None, w)"
| "archive_files archive_path (file # to_archive) w =
     (case rename file (archive_path @ ''/'' @ name file) w of
        Inl e \<Rightarrow> (Some e, w)
      | Inr w' \<Rightarrow> archive_files archive_path to_archive w')"

definition archive_data ::
  "string \<Rightarrow> string \<Rightarrow> string list \<Rightarrow> world \<Rightarrow> py_error option \<times> world" where
  "archive_data archive_data_dir time to_archive w =
     (let archive_path = archive_data_dir @ ''/'' @ time
      in if archive_path \<in> set (files w) then (Some (FileExistsError archive_path), w)
         else archive_files archive_path to_archive (create archive_path w))"

text \<open>\<open>util.generate_slug\<close> (with \<open>str.lower\<close> on ASCII letters) and
  \<open>util.generate_data_path\<close>, which creates the parent directory of the path it returns.\<close>

fun collapse_spaces :: "string \<Rightarrow> string" where
  "collapse_spaces (c # d # cs) =
     (if c = CHR '' '' \<and> d = CHR '' '' then collapse_spaces (d # cs)
      else c # collapse_spaces (d # cs))"
| "collapse_spaces cs = cs"

definition lower :: "string \<Rightarrow> string" where
  "lower s =
     map (\<lambda>c. if CHR ''A'' \<le> c \<and> c \<le> CHR ''Z'' then char_of (of_char c + (32::nat)) else c) s"

definition replace :: "char \<Rightarrow> string \<Rightarrow> string \<Rightarrow> string" where
  "replace old new s = concat (map (\<lambda>c. if c = old then new else [c]) s)"

definition generate_slug :: "string \<Rightarrow> string \<Rightarrow> string" where
  "generate_slug nm delimiter = replace CHR '' '' delimiter (lower (collapse_spaces nm))"

definition generate_data_path ::
  "string \<Rightarrow> string \<Rightarrow> string \<Rightarrow> string \<Rightarrow> world \<Rightarrow> string \<times> world" where
  "generate_data_path path folder_name title ext w =
     (let parent = path @ ''/'' @ generate_slug folder_name ''-'';
          filepath = parent @ ''/'' @ title @ ''.'' @ ext
      in (filepath, create parent w))"


section \<open>Download handlers (download/process/handlers.py, download/configure/file.py)\<close>

record File =
  folder :: string
  url :: string
  file_ext :: string
  write_to_disk :: bool

text \<open>
  \<open>ArcgisGeomHandler\<close> is the one concrete \<open>DownloadHandler\<close> of the repository. The
  field \<open>class_name\<close> is \<open>type(entry).__name__\<close>, which \<open>Config._find_duplicate_url\<close>
  reads, so that entries of other subclasses can be given to the duplicate passes.
\<close>

record handler =
  class_name :: string
  "file" :: File
  filename :: string
  server :: string
  outfields :: "string option"
  format :: string
  offset :: int
  output_filename :: string

definition filenames :: "handler \<Rightarrow> string list" where
  "filenames h = [output_filename h]"

definition GEOMETRY_SERVERS :: "(string \<times> string) list" where
  "GEOMETRY_SERVERS = [(''ons'', ''/FeatureServer/0/query?''), (''scot'', ''/query?'')]"

definition query_params :: "handler \<Rightarrow> params" where
  "query_params h =
     [(''where'', Str ''1=1''),
      (''timeRelation'', Str ''esriTimeRelationOverlaps''),
      (''geometryType'', Str ''esriGeometryEnvelope''),
      (''spatialRel'', Str ''esriSpatialRelIntersects''),
      (''resultType'', Str ''none''),
      (''distance'', Str ''0.0''),
      (''units'', Str ''esriSRUnit_Meter''),
      (''outFields'', (case outfields h of None \<Rightarrow> Null | Some out \<Rightarrow> Str out)),
      (''featureEncoding'', Str ''esriCompressedShapeBuffer''),
      (''outputSpatialReference'', Num 4326),
      (''returnTrueCurves'', Str ''false''),
      (''multipatchOption'', Str ''xyFootprint''),
      (''sqlFormat'', Str ''none''),
      (''f'', Str (format h)),
      (''resultRecordCount'', (if offset h = 0 then Str [] else Num (offset h)))]"

text \<open>
  \<open>ArcgisGeomHandler.execute\<close>. The returned \<open>dict\<close> is a map from filenames to payloads,
  where the payload \<open>None\<close> is the absent one. \<open>gdf.to_parquet(filepath)\<close> creates or
  overwrites the file.
\<close>

type_synonym 'f outputs = "string \<rightharpoonup> 'f list option"

definition execute ::
  "'f api \<Rightarrow> handler \<Rightarrow> string \<Rightarrow> world
     \<Rightarrow> ((py_error + bool \<times> 'f outputs) \<times> world) option" where
  "execute api h path w =
     (case map_of GEOMETRY_SERVERS (server h) of
        None \<Rightarrow> Some (Inl (KeyError (server h)), w)
      | Some suffix \<Rightarrow>
          (case iterative_geo_api_retrieve api (requests w) (query_params h) (offset h)
                  (url (file h) @ filename h @ suffix) 3 of
             None \<Rightarrow> None
           | Some (Inl e, log) \<Rightarrow> Some (Inl e, w\<lparr>requests := log\<rparr>)
           | Some (Inr (gdf, status), log) \<Rightarrow>
               if \<not> status
                 then Some (Inr (False, [output_filename h \<mapsto> None]), w\<lparr>requests := log\<rparr>)
               else if write_to_disk (file h)
                 then (case generate_data_path path (folder (file h)) (output_filename h)
                              (file_ext (file h)) (w\<lparr>requests := log\<rparr>) of
                         (filepath, w') \<Rightarrow>
                           Some (Inr (True, [output_filename h \<mapsto> gdf]), create filepath w'))
               else Some (Inr (True, [output_filename h \<mapsto> gdf]), w\<lparr>requests := log\<rparr>)))"


section \<open>Configuration model (download/configure/config.py)\<close>

record Config =
  entries :: "handler list"

datatype warning =
    Duplicate_zip_url string
  | Duplicate_url string
  | Duplicate_filename string

text \<open>
  \<open>Config._find_duplicate_url\<close>: the loop over \<open>self.entries\<close> with its two lists
  \<open>urls\<close> and \<open>zip_urls\<close>. Each call of \<open>warnings.warn\<close> is recorded in a list, in the
  order of the calls.
\<close>

fun duplicate_url_loop ::
  "handler list \<Rightarrow> string list \<Rightarrow> string list \<Rightarrow> warning list \<Rightarrow> warning list" where
  "duplicate_url_loop [] urls zip_urls warned = warned"
| "duplicate_url_loop (entry # rest) urls zip_urls warned =
     (if class_name entry = ''ZipHandler''
        then (if url (file entry) \<in> set zip_urls
                then duplicate_url_loop rest urls zip_urls
                       (warned @ [Duplicate_zip_url (url (file entry))])
              else duplicate_url_loop rest urls (zip_urls @ [url (file entry)]) warned)
      else if class_name entry \<notin> set [''ArcgisGeomHandler'']
        then (if url (file entry) \<in> set urls
                then duplicate_url_loop rest urls zip_urls
                       (warned @ [Duplicate_url (url (file entry))])
              else duplicate_url_loop rest (urls @ [url (file entry)]) zip_urls warned)
      else duplicate_url_loop rest urls zip_urls warned)"

definition find_duplicate_url :: "handler list \<Rightarrow> warning list" where
  "find_duplicate_url es = duplicate_url_loop es [] [] []"

text \<open>\<open>Config._find_duplicate_filename\<close>: the two nested loops run over the filenames of
  all entries in order.\<close>

fun duplicate_filename_loop :: "string list \<Rightarrow> string list \<Rightarrow> warning list \<Rightarrow> warning list" where
  "duplicate_filename_loop [] seen warned = warned"
| "duplicate_filename_loop (fname # rest) seen warned =
     (if fname \<in> set seen
        then duplicate_filename_loop rest seen (warned @ [Duplicate_filename fname])
      else duplicate_filename_loop rest (seen @ [fname]) warned)"

definition find_duplicate_filename :: "handler list \<Rightarrow> warning list" where
  "find_duplicate_filename es = duplicate_filename_loop (concat (map filenames es)) [] []"

text \<open>
  \<open>Config.__post_init__\<close>. The configuration document is a list of folders, each with
  its datasets; the construction of one handler from a folder name and a dataset (the
  \<open>pydantic\<close> models and the table \<open>DOWNLOAD_HANDLERS\<close>) is the parameter \<open>construct\<close>,
  which gives the handler or the exception raised. The result is the \<open>Config\<close> and the
  warnings emitted.
\<close>

fun build_datasets ::
  "(string \<Rightarrow> 'd \<Rightarrow> 'e + handler) \<Rightarrow> string \<Rightarrow> 'd list \<Rightarrow> handler list \<Rightarrow> 'e + handler list" where
  "build_datasets construct folder_name [] es = Inr es"
| "build_datasets construct folder_name (dataset # datasets) es =
     (case construct folder_name dataset of
        Inl e \<Rightarrow> Inl e
      | Inr h \<Rightarrow> build_datasets construct folder_name datasets (es @ [h]))"

fun build_entries ::
  "(string \<Rightarrow> 'd \<Rightarrow> 'e + handler) \<Rightarrow> (string \<times> 'd list) list \<Rightarrow> handler list
     \<Rightarrow> 'e + handler list" where
  "build_entries construct [] es = Inr es"
| "build_entries construct ((folder_name, datasets) # config_file) es =
     (case build_datasets construct folder_name datasets es of
        Inl e \<Rightarrow> Inl e
      | Inr es' \<Rightarrow> build_entries construct config_file es')"

definition post_init ::
  "(string \<Rightarrow> 'd \<Rightarrow> 'e + handler) \<Rightarrow> (string \<times> 'd list) list \<Rightarrow> 'e + Config \<times> warning list" where
  "post_init construct config_file =
     (case build_entries construct config_file [] of
        Inl e \<Rightarrow> Inl e
      | Inr es \<Rightarrow> Inr (\<lparr>entries = es\<rparr>, find_duplicate_url es @ find_duplicate_filename es))"

text \<open>\<open>Config.find_file_config\<close>; the \<open>ValueError\<close> carries the filename.\<close>

fun find_entry :: "handler list \<Rightarrow> string \<Rightarrow> py_error + handler" where
  "find_entry [] fname = Inl (ValueError fname)"
| "find_entry (entry # rest) fname =
     (if fname \<in> set (filenames entry) then Inr entry else find_entry rest fname)"

definition find_file_config :: "Config \<Rightarrow> string \<Rightarrow> py_error + handler" where
  "find_file_config cfg fname = find_entry (entries cfg) fname"


section \<open>Reconciliation engine (download/downloader.py)\<close>

record 'f Downloader =
  config :: Config
  raw_directory :: string
  archive :: bool
  data :: "'f outputs"

definition existing_files :: "'f Downloader \<Rightarrow> world \<Rightarrow> string list" where
  "existing_files d w =
     sort (map stem (filter (\<lambda>title. \<not> is_in ''DS_Store'' title) (glob (raw_directory d) w)))"

definition required_files :: "'f Downloader \<Rightarrow> string list" where
  "required_files d = sort (concat (map filenames (entries (config d))))"

definition old_data :: "'f Downloader \<Rightarrow> world \<Rightarrow> string list" where
  "old_data d w =
     filter (\<lambda>f. stem f \<notin> set (required_files d))
       (filter (\<lambda>f. \<not> is_in ''DS_Store'' f) (glob (raw_directory d) w))"

text \<open>
  \<open>Downloader.missing\<close> returns \<open>list(set(required) - set(existing))\<close>. The order in
  which Python iterates over a set is not fixed by the language; it is the parameter
  \<open>set_order\<close>, which is given the elements of the set and returns them in the order of
  iteration.
\<close>

definition missing :: "(string list \<Rightarrow> string list) \<Rightarrow> 'f Downloader \<Rightarrow> world \<Rightarrow> string list" where
  "missing set_order d w =
     set_order (remdups (filter (\<lambda>f. f \<notin> set (existing_files d w)) (required_files d)))"

definition check :: "'f Downloader \<Rightarrow> world \<Rightarrow> bool" where
  "check d w = (required_files d = existing_files d w)"

text \<open>
  \<open>Downloader.update\<close>. The call \<open>file.execute(self.raw_directory)\<close> is dispatched on the
  handler; it is the parameter \<open>exec\<close>, which may not return (\<open>None\<close>). The environment of
  a run holds \<open>Paths.ARCHIVE_DATA_DIR\<close>, the clock reading that names the archive
  directory and the iteration order of sets. The result holds, next to the returned
  status or the exception, the downloader and the store after the call and the list of
  the calls of \<open>execute\<close> made, each with the filename it was made for.
\<close>

record env =
  ARCHIVE_DATA_DIR :: string
  now :: string
  set_order :: "string list \<Rightarrow> string list"

type_synonym 'f exec =
  "handler \<Rightarrow> string \<Rightarrow> world \<Rightarrow> ((py_error + bool \<times> 'f outputs) \<times> world) option"

type_synonym 'f update_result =
  "(py_error + bool) \<times> 'f Downloader \<times> world \<times> (string \<times> handler) list"

fun download_loop ::
  "'f exec \<Rightarrow> string list \<Rightarrow> bool \<Rightarrow> 'f Downloader \<Rightarrow> world \<Rightarrow> (string \<times> handler) list
     \<Rightarrow> 'f update_result option" where
  "download_loop exec [] download_status d w calls = Some (Inr download_status, d, w, calls)"
| "download_loop exec (missing_file # rest) download_status d w calls =
     (case find_file_config (config d) missing_file of
        Inl e \<Rightarrow> Some (Inl e, d, w, calls)
      | Inr h \<Rightarrow>
          (case exec h (raw_directory d) w of
             None \<Rightarrow> None
           | Some (Inl e, w') \<Rightarrow> Some (Inl e, d, w', calls @ [(missing_file, h)])
           | Some (Inr (status, outputs), w') \<Rightarrow>
               download_loop exec rest (if \<not> status then False else download_status)
                 (if status then d\<lparr>data := data d ++ outputs\<rparr> else d) w'
                 (calls @ [(missing_file, h)])))"

text \<open>The branch on \<open>self.archive\<close> in \<open>update\<close>, which disposes of the obsolete files.\<close>

definition dispose :: "env \<Rightarrow> 'f Downloader \<Rightarrow> world \<Rightarrow> py_error option \<times> world" where
  "dispose e d w =
     (if archive d then archive_data (ARCHIVE_DATA_DIR e) (now e) (old_data d w) w
      else delete_data (old_data d w) w)"

definition update :: "'f exec \<Rightarrow> env \<Rightarrow> 'f Downloader \<Rightarrow> world \<Rightarrow> 'f update_result option" where
  "update exec e d w =
     (if check d w then Some (Inr True, d, w, [])
      else (case dispose e d w of
              (Some err, w') \<Rightarrow> Some (Inl err, d, w', [])
            | (None, w') \<Rightarrow> download_loop exec (missing (set_order e) d w') True d w' []))"


section \<open>Response scenarios and example inputs\<close>

text \<open>
  The responses that serve a page at attempt \<open>a + 1\<close>, after \<open>a\<close> responses without the
  field \<open>features\<close>, and the responses that refuse a page: \<open>j\<close> responses without the
  field, followed by a transport failure when attempts are left.
\<close>

definition served :: "nat \<times> 'f list \<Rightarrow> 'f fetched list" where
  "served = (\<lambda>(a, fs). replicate a (Fetched (Json None)) @ [Fetched (Json (Some fs))])"

definition refused :: "int \<Rightarrow> nat \<Rightarrow> 'f fetched list" where
  "refused max_retries j =
     replicate j (Fetched (Json None)) @ (if int j < max_retries then [Fetch_failed] else [])"

definition api_two_pages :: "nat api" where
  "api_two_pages k =
     (if k = 0 then Fetched (Json (Some [1, 2]))
      else if k = 1 then Fetched (Json (Some [3]))
      else Fetched (Json (Some [])))"

definition api_second_page_refused :: "nat api" where
  "api_second_page_refused k = (if k = 0 then Fetched (Json (Some [1])) else Fetched (Json None))"

definition api_late_features :: "nat api" where
  "api_late_features k = (if k = 0 then Fetched (Json None) else Fetched (Json (Some [1])))"

definition api_down :: "nat api" where
  "api_down k = Fetch_failed"

definition api_one_feature :: "nat api" where
  "api_one_feature k = Fetched (Json (Some [1]))"

text \<open>
  A handler that keeps its result in memory, a downloader for it, and a store in which
  two files below the raw root have the stem that this handler produces.
\<close>

definition regions_handler :: handler where
  "regions_handler =
     \<lparr>class_name = ''ArcgisGeomHandler'',
      file = \<lparr>folder = ''boundaries'', url = ''https://services.example.org/'',
               file_ext = ''parquet'', write_to_disk = False\<rparr>,
      filename = ''Regions_2019'', server = ''ons'', outfields = Some ''*'',
      format = ''geojson'', offset = 0, output_filename = ''regions_2019''\<rparr>"

definition wards_handler :: handler where
  "wards_handler = regions_handler\<lparr>filename := ''Wards_2019'', output_filename := ''wards_2019''\<rparr>"

definition regions_downloader :: "nat Downloader" where
  "regions_downloader =
     \<lparr>config = \<lparr>entries = [regions_handler]\<rparr>, raw_directory = ''data/raw'',
      archive = False, data = Map.empty\<rparr>"

definition two_downloader :: "nat Downloader" where
  "two_downloader =
     \<lparr>config = \<lparr>entries = [regions_handler, wards_handler]\<rparr>, raw_directory = ''data/raw'',
      archive = False, data = Map.empty\<rparr>"

definition two_copies :: world where
  "two_copies =
     \<lparr>files = [''data/raw/boundaries/regions_2019.parquet'',
               ''data/raw/backup/regions_2019.parquet''],
      requests = []\<rparr>"

definition empty_store :: world where
  "empty_store = \<lparr>files = [], requests = []\<rparr>"

definition reversing :: env where
  "reversing = \<lparr>ARCHIVE_DATA_DIR = ''data/archive'', now = ''2024-05-01_09:00:00'', set_order = rev\<rparr>"

text \<open>The filenames for which \<open>execute\<close> was called during an update, in the order of the
  calls.\<close>

definition processed :: "'f update_result option \<Rightarrow> string list" where
  "processed r = (case r of None \<Rightarrow> [] | Some (out, d, w, calls) \<Rightarrow> map fst calls)"

text \<open>
  Entries of two further handler classes that share one URL, and a constructor that
  takes the handler itself as the dataset.
\<close>

definition zip_entry :: handler where
  "zip_entry = regions_handler\<lparr>class_name := ''ZipHandler'', output_filename := ''archive_2019''\<rparr>"

definition csv_entry :: handler where
  "csv_entry = regions_handler\<lparr>class_name := ''CsvHandler'', output_filename := ''table_2019''\<rparr>"

definition prebuilt :: "string \<Rightarrow> handler \<Rightarrow> validation_error + handler" where
  "prebuilt folder_name dataset = Inr dataset"

definition is_url_warning :: "warning \<Rightarrow> bool" where
  "is_url_warning warned =
     (case warned of Duplicate_filename f \<Rightarrow> False | _ \<Rightarrow> True)"












section \<open>Properties of the validators\<close>

lemma py_int_years:
  "py_int ''2019'' = Some 2019" "py_int ''2024'' = Some 2024" "py_int ''1800'' = Some 1800"
  by (simp_all add: py_int_def strip_def is_space_def parse_unsigned_def is_digit_def
      digit_val_def)

lemma split_examples:
  "split CHR ''_'' ''crime-data_2019'' = [''crime-data'', ''2019'']"
  "split CHR ''_'' ''crime-data_2019-2024'' = [''crime-data'', ''2019-2024'']"
  "split CHR ''_'' ''crime-data_1800'' = [''crime-data'', ''1800'']"
  "split CHR ''_'' ''crime-data-2019'' = [''crime-data-2019'']"
  "split CHR ''-'' ''2019'' = [''2019'']"
  "split CHR ''-'' ''2019-2024'' = [''2019'', ''2024'']"
  "split CHR ''-'' ''1800'' = [''1800'']"
  by simp_all

lemma guard_examples:
  "\<not> empty_value ''crime-data_2019''" "\<not> string_contains_space ''crime-data_2019''"
  "\<not> empty_value ''crime-data_2019-2024''" "\<not> string_contains_space ''crime-data_2019-2024''"
  "\<not> empty_value ''crime-data_1800''" "\<not> string_contains_space ''crime-data_1800''"
  "\<not> empty_value ''crime data_2019''" "string_contains_space ''crime data_2019''"
  "\<not> empty_value ''crime-data-2019''" "\<not> string_contains_space ''crime-data-2019''"
  by (simp_all add: empty_value_def isspace_def is_space_def string_contains_space_def)

text \<open>
  Claim C8. When the clock reads the year 2024 or later, the output-filename validator
  accepts \<open>crime-data_2019\<close> and \<open>crime-data_2019-2024\<close>; it rejects \<open>crime data_2019\<close>
  with the whitespace error, \<open>crime-data-2019\<close> with the symbol-count error and
  \<open>crime-data_1800\<close> with the invalid-year error, and these three error kinds are
  pairwise distinct.
\<close>

theorem validate_output_filename_examples:
  assumes "2024 \<le> curr_year"
  shows "validate_output_filename curr_year ''crime-data_2019'' = Inr ''crime-data_2019'' \<and>
     validate_output_filename curr_year ''crime-data_2019-2024'' = Inr ''crime-data_2019-2024'' \<and>
     validate_output_filename curr_year ''crime data_2019'' = Inl InvalidSpaceError \<and>
     validate_output_filename curr_year ''crime-data-2019'' = Inl InvalidNumberOfSymbolsError \<and>
     validate_output_filename curr_year ''crime-data_1800'' = Inl InvalidYearError \<and>
     distinct [InvalidSpaceError, InvalidNumberOfSymbolsError, InvalidYearError]"
  using assms
  by (simp add: validate_output_filename_def guard_examples invalid_symbol_count_def
      string_contains_year_def split_examples validate_year_def py_int_years
      del: split.simps)

theorem validate_output_filename_examples_witness:
  "(2024::int) \<le> 2024 \<and>
     validate_output_filename 2024 ''crime-data_2019'' = Inr ''crime-data_2019'' \<and>
     validate_output_filename 2024 ''crime-data_2019-2024'' = Inr ''crime-data_2019-2024'' \<and>
     validate_output_filename 2024 ''crime data_2019'' = Inl InvalidSpaceError \<and>
     validate_output_filename 2024 ''crime-data-2019'' = Inl InvalidNumberOfSymbolsError \<and>
     validate_output_filename 2024 ''crime-data_1800'' = Inl InvalidYearError"
  using validate_output_filename_examples [of 2024] by simp


section \<open>Properties of the paginated retrieval\<close>

lemma retry_loop_skip:
  "a \<le> length rs \<Longrightarrow> (\<forall>k<a. rs ! k \<noteq> m) \<Longrightarrow>
   (\<forall>i<a. api (length log + i) = Fetched (Json None)) \<Longrightarrow>
   retry_loop api rq m ret log rs =
     retry_loop api rq m (if a = 0 then ret else Some (Json None)) (log @ replicate a rq) (drop a rs)"
proof (induction a arbitrary: rs log ret)
  case 0
  then show ?case by simp
next
  case (Suc a)
  then obtain r rs' where rs: "rs = r # rs'" by (cases rs) auto
  from Suc.prems rs have r: "r \<noteq> m" by auto
  from Suc.prems have first: "api (length log) = Fetched (Json None)" by force
  have len: "a \<le> length rs'" using Suc.prems rs by simp
  have nth: "\<forall>k<a. rs' ! k \<noteq> m" using Suc.prems(2) rs by auto
  have resp: "\<forall>i<a. api (length (log @ [rq]) + i) = Fetched (Json None)"
    using Suc.prems(3) by auto
  have "retry_loop api rq m ret log rs = retry_loop api rq m (Some (Json None)) (log @ [rq]) rs'"
    using rs r first by simp
  also have "\<dots> = retry_loop api rq m (if a = 0 then Some (Json None) else Some (Json None))
      ((log @ [rq]) @ replicate a rq) (drop a rs')"
    by (rule Suc.IH [OF len nth resp])
  finally show ?case using rs by (simp add: replicate_app_Cons_same)
qed

lemma upto_retry_drop:
  assumes "a < nat m"
  shows "drop a [1..m] = (1 + int a) # drop (Suc a) [1..m]"
  using assms Cons_nth_drop_Suc [of a "[1..m]"] by simp

lemma retry_loop_upto_skip:
  assumes "int a < m" and "\<forall>i<a. api (length log + i) = Fetched (Json None)"
  shows "retry_loop api rq m ret log [1..m] =
     retry_loop api rq m (if a = 0 then ret else Some (Json None)) (log @ replicate a rq)
       ((1 + int a) # drop (Suc a) [1..m])"
proof -
  have "a \<le> length [1..m]" using assms(1) by simp
  moreover have "\<forall>k<a. [1..m] ! k \<noteq> m" using assms(1) by simp
  ultimately show ?thesis
    using retry_loop_skip [of a "[1..m]" m api log rq ret] assms upto_retry_drop [of a m]
    by simp
qed

text \<open>The three ways in which the attempts for one page end.\<close>

lemma retry_loop_features:
  assumes "int a < m" and "\<forall>i<a. api (length log + i) = Fetched (Json None)"
    and "api (length log + a) = Fetched (Json (Some fs))"
  shows "retry_loop api rq m ret log [1..m] =
     (Proceed (Some (Json (Some fs))), log @ replicate (Suc a) rq)"
  using assms(3) by (simp add: retry_loop_upto_skip [OF assms(1,2)] replicate_append_same)

lemma retry_loop_failed:
  assumes "int a < m" and "\<forall>i<a. api (length log + i) = Fetched (Json None)"
    and "api (length log + a) = Fetch_failed"
  shows "retry_loop api rq m ret log [1..m] = (Return (None, False), log @ replicate (Suc a) rq)"
  using assms(3) by (simp add: retry_loop_upto_skip [OF assms(1,2)] replicate_append_same)

lemma retry_loop_exhausted:
  assumes "0 < m" and "\<forall>i<nat m. api (length log + i) = Fetched (Json None)"
  shows "retry_loop api rq m ret log [1..m] = (Return (None, False), log @ replicate (nat m) rq)"
proof -
  define a where "a = nat m - 1"
  have a: "int a < m" "1 + int a = m" "Suc a = nat m" using assms(1) by (auto simp: a_def)
  have "\<forall>i<a. api (length log + i) = Fetched (Json None)" using assms(2) a by auto
  moreover have "api (length log + a) = Fetched (Json None)" using assms(2) a by auto
  moreover have "replicate (nat m) rq = rq # replicate a rq" using a(3) [symmetric] by simp
  ultimately show ?thesis
    using a(2) by (simp add: retry_loop_upto_skip [OF a(1)] replicate_append_same)
qed

lemma combine_snoc: "combine (raw @ [j]) = combine raw @ from_features j"
  by (simp add: combine_def)



lemma retry_loop_not_json:
  assumes "int a < m" and "\<forall>i<a. api (length log + i) = Fetched (Json None)"
    and "api (length log + a) = Not_json"
  shows "retry_loop api rq m ret log [1..m] = (Raise JSONDecodeError, log @ replicate (Suc a) rq)"
  using assms(3) by (simp add: retry_loop_upto_skip [OF assms(1,2)] replicate_append_same)

lemma page_loop_abort:
  assumes "0 < m"
    and "offs = 0 \<longrightarrow> earlier = []"
    and "\<forall>(a, fs)\<in>set earlier. int a < m \<and> fs \<noteq> []"
    and "int j \<le> m"
    and "\<forall>i<length (concat (map served earlier) @ refused m j).
           api (length log + i) = (concat (map served earlier) @ refused m j) ! i"
  shows "\<exists>issued. page_loop api offs u m ps it raw ret log = Some (Inr (None, False), log @ issued) \<and>
           length issued = length (concat (map served earlier) @ refused m j)"
  using assms(2,3,5)
proof (induction earlier arbitrary: ps it raw ret log)
  case Nil
  let ?rq = "(u, encode_params (AList.update ''resultOffset'' (Num (offs * (it - 1))) ps))"
  have feat: "\<forall>i<j. api (length log + i) = Fetched (Json None)"
    using Nil.prems(3) by (auto simp: refused_def nth_append)
  show ?case
  proof (cases "int j < m")
    case True
    have "api (length log + j) = Fetch_failed"
      using Nil.prems(3) True by (auto simp: refused_def nth_append dest: spec [of _ j])
    from retry_loop_failed [OF True feat this]
    have "page_loop api offs u m ps it raw ret log =
        Some (Inr (None, False), log @ replicate (Suc j) ?rq)"
      by (subst page_loop.simps) (simp add: Let_def)
    then show ?thesis using True by (simp add: refused_def)
  next
    case False
    then have j: "nat m = j" using assms(4) by simp
    from retry_loop_exhausted [OF assms(1), of api log] feat j
    have "page_loop api offs u m ps it raw ret log =
        Some (Inr (None, False), log @ replicate (nat m) ?rq)"
      by (subst page_loop.simps) (simp add: Let_def)
    then show ?thesis using False j by (simp add: refused_def)
  qed
next
  case (Cons page earlier)
  obtain a fs where page: "page = (a, fs)" by (cases page)
  let ?ps = "AList.update ''resultOffset'' (Num (offs * (it - 1))) ps"
  let ?rq = "(u, encode_params ?ps)"
  let ?rest = "concat (map served earlier) @ refused m j"
  have offs: "offs \<noteq> 0" using Cons.prems(1) by auto
  have a: "int a < m" "fs \<noteq> []" using Cons.prems(2) page by auto
  have all: "\<forall>i<Suc a + length ?rest. api (length log + i) =
      (replicate a (Fetched (Json None)) @ Fetched (Json (Some fs)) # ?rest) ! i"
    using Cons.prems(3) page by (simp add: served_def)
  have feat: "\<forall>i<a. api (length log + i) = Fetched (Json None)"
    using all by (auto simp: nth_append)
  have hit: "api (length log + a) = Fetched (Json (Some fs))"
    using all by (auto simp: nth_append dest: spec [of _ a])
  have rest: "\<forall>i<length ?rest. api (length (log @ replicate (Suc a) ?rq) + i) = ?rest ! i"
  proof (intro allI impI)
    fix i assume "i < length ?rest"
    then have "Suc a + i < Suc a + length ?rest" by simp
    then have "api (length log + (Suc a + i)) =
      (replicate a (Fetched (Json None)) @ Fetched (Json (Some fs)) # ?rest) ! (Suc a + i)"
      using all by blast
    then show "api (length (log @ replicate (Suc a) ?rq) + i) = ?rest ! i"
      by (simp add: nth_append add.assoc)
  qed
  have step: "page_loop api offs u m ps it raw ret log =
      page_loop api offs u m ?ps (it + 1) (raw @ [Json (Some fs)]) (Some (Json (Some fs)))
        (log @ replicate (Suc a) ?rq)"
    using retry_loop_features [OF a(1) feat hit] a(2) offs
    by (subst page_loop.simps) (simp add: Let_def)
  have e1: "offs = 0 \<longrightarrow> earlier = []" using offs by simp
  have e2: "\<forall>(a, fs)\<in>set earlier. int a < m \<and> fs \<noteq> []" using Cons.prems(2) by simp
  from Cons.IH [OF e1 e2 rest, of ?ps "it + 1" "raw @ [Json (Some fs)]" "Some (Json (Some fs))"]
  obtain issued where "page_loop api offs u m ?ps (it + 1) (raw @ [Json (Some fs)])
        (Some (Json (Some fs))) (log @ replicate (Suc a) ?rq) =
      Some (Inr (None, False), (log @ replicate (Suc a) ?rq) @ issued)"
    and "length issued = length ?rest"
    by blast
  with step show ?case
    using page by (intro exI [of _ "replicate (Suc a) ?rq @ issued"]) (simp add: served_def)
qed

lemma retry_loop_upto_total:
  assumes "0 < m"
  shows "\<exists>k out. retry_loop api rq m ret log [1..m] = (out, log @ replicate k rq) \<and>
           1 \<le> k \<and> int k \<le> m \<and>
           (api (length log) \<noteq> Fetched (Json None) \<longrightarrow> k = 1) \<and>
           (out = Return (None, False) \<or> out = Raise JSONDecodeError \<or>
            (\<exists>fs. out = Proceed (Some (Json (Some fs)))))"
proof (cases "\<forall>i<nat m. api (length log + i) = Fetched (Json None)")
  case True
  then have "api (length log) = Fetched (Json None)" using assms by (auto dest: spec [of _ 0])
  with retry_loop_exhausted [OF assms True, of rq ret] assms show ?thesis
    by (intro exI [of _ "nat m"]) auto
next
  case False
  define a where "a = (LEAST i. api (length log + i) \<noteq> Fetched (Json None))"
  from False obtain i where i: "i < nat m" "api (length log + i) \<noteq> Fetched (Json None)" by auto
  have hit: "api (length log + a) \<noteq> Fetched (Json None)"
    unfolding a_def using i(2) by (rule LeastI)
  have "a \<le> i" unfolding a_def using i(2) by (rule Least_le)
  then have am: "int a < m" using i(1) by simp
  have feat: "\<forall>i<a. api (length log + i) = Fetched (Json None)"
    unfolding a_def using not_less_Least by blast
  have first: "api (length log) \<noteq> Fetched (Json None) \<longrightarrow> a = 0"
    using feat by (cases a) auto
  show ?thesis
  proof (cases "api (length log + a)")
    case Fetch_failed
    from retry_loop_failed [OF am feat this, of rq ret] am first show ?thesis
      by (intro exI [of _ "Suc a"]) auto
  next
    case Not_json
    from retry_loop_not_json [OF am feat this, of rq ret] am first show ?thesis
      by (intro exI [of _ "Suc a"]) auto
  next
    case (Fetched j)
    with hit obtain fs where "api (length log + a) = Fetched (Json (Some fs))"
      by (cases j) auto
    from retry_loop_features [OF am feat this, of rq ret] am first show ?thesis
      by (intro exI [of _ "Suc a"]) auto
  qed
qed

lemma page_loop_single_shot:
  assumes "0 < m"
  shows "\<exists>outcome issued.
     page_loop api 0 u m ps it raw ret log = Some (outcome, log @ issued) \<and>
     1 \<le> length issued \<and> int (length issued) \<le> m \<and>
     (\<forall>rq\<in>set issued. rq = (u, encode_params (AList.update ''resultOffset'' (Num 0) ps))) \<and>
     (api (length log) \<noteq> Fetched (Json None) \<longrightarrow> length issued = 1)"
proof -
  let ?rq = "(u, encode_params (AList.update ''resultOffset'' (Num 0) ps))"
  from retry_loop_upto_total [OF assms, of api ?rq ret log]
  obtain k out where k: "retry_loop api ?rq m ret log [1..m] = (out, log @ replicate k ?rq)"
      "1 \<le> k" "int k \<le> m" "api (length log) \<noteq> Fetched (Json None) \<longrightarrow> k = 1"
      "out = Return (None, False) \<or> out = Raise JSONDecodeError \<or>
            (\<exists>fs. out = Proceed (Some (Json (Some fs))))"
    by blast
  from k(5) have "\<exists>outcome. page_loop api 0 u m ps it raw ret log =
      Some (outcome, log @ replicate k ?rq)"
    using k(1) by (subst page_loop.simps) (auto simp: Let_def)
  then show ?thesis using k(2,3,4) by auto
qed




text \<open>
  Claim C3. Let the retry ceiling be at least one. Let every earlier page be served with
  a non-empty feature list after fewer than \<open>max_retries\<close> responses without the field
  \<open>features\<close> (with page size zero there is no earlier page), and let the next page be
  refused: after \<open>j\<close> responses without the field its fetch reports a transport
  failure, or all \<open>max_retries\<close> responses lack the field. Then the retrieval returns
  \<open>(None, False)\<close>, and not a combination of the pages fetched before.
\<close>

theorem pagination_abort:
  assumes "0 < max_retries"
    and "offs = 0 \<longrightarrow> earlier = []"
    and "\<forall>(a, fs)\<in>set earlier. int a < max_retries \<and> fs \<noteq> []"
    and "int j \<le> max_retries"
    and "\<forall>i<length (concat (map served earlier) @ refused max_retries j).
           api (length log + i) = (concat (map served earlier) @ refused max_retries j) ! i"
  shows "\<exists>issued.
     iterative_geo_api_retrieve api log api_params offs base_url max_retries =
       Some (Inr (None, False), log @ issued) \<and>
     length issued = length (concat (map served earlier) @ refused max_retries j)"
  unfolding iterative_geo_api_retrieve_def
  using assms by (rule page_loop_abort)

theorem pagination_abort_witness:
  "\<exists>issued.
     iterative_geo_api_retrieve api_second_page_refused [] [(''f'', Str ''geojson'')] 2 ''u'' 3 =
       Some (Inr (None, False), [] @ issued) \<and>
     length issued = length (concat (map served [(0, [1::nat])]) @ refused 3 3)"
  using pagination_abort [of 3 2 "[(0, [1])]" 3 api_second_page_refused "[]"
      "[(''f'', Str ''geojson'')]" "''u''"]
  by (simp add: api_second_page_refused_def served_def refused_def All_less_Suc nth_Cons')

text \<open>
  Claim C7, as stated, fails: with \<open>offset = 0\<close> a first response without the field
  \<open>features\<close> is retried, so two requests are issued here.
\<close>

theorem single_shot_retries_counterexample:
  "iterative_geo_api_retrieve api_late_features [] [] 0 ''u'' 3 =
     Some (Inr (Some [1], True),
           [(''u'', [(''resultOffset'', Num 0)]), (''u'', [(''resultOffset'', Num 0)])])"
  by (simp add: iterative_geo_api_retrieve_def page_loop.simps api_late_features_def
      encode_params_def combine_def from_features_def Let_def upto.simps [of 1])

text \<open>
  Claim C7, amended. With \<open>offset = 0\<close> and a retry ceiling of at least one, the
  retrieval returns after the attempts for the first page: it issues at least one and at
  most \<open>max_retries\<close> requests, each carrying \<open>resultOffset = 0\<close>, and exactly one request
  unless the first response is a JSON object without the field \<open>features\<close>.
\<close>

theorem single_shot:
  assumes "0 < max_retries"
  shows "\<exists>outcome issued.
     iterative_geo_api_retrieve api log api_params 0 base_url max_retries =
       Some (outcome, log @ issued) \<and>
     1 \<le> length issued \<and> int (length issued) \<le> max_retries \<and>
     (\<forall>rq\<in>set issued.
        rq = (base_url, encode_params (AList.update ''resultOffset'' (Num 0) api_params))) \<and>
     (api (length log) \<noteq> Fetched (Json None) \<longrightarrow> length issued = 1)"
  unfolding iterative_geo_api_retrieve_def
  using assms by (rule page_loop_single_shot)

theorem single_shot_witness:
  "\<exists>outcome issued.
     iterative_geo_api_retrieve api_two_pages [] [(''f'', Str ''geojson'')] 0 ''u'' 3 =
       Some (outcome, issued) \<and> length issued = 1"
  using single_shot [of 3 api_two_pages "[]" "[(''f'', Str ''geojson'')]" "''u''"]
  by (auto simp: api_two_pages_def)



section \<open>Properties of the reconciliation check\<close>

lemma sorted_lists_eq_iff: "sort xs = sort ys \<longleftrightarrow> mset xs = mset ys"
  by (metis mset_sort properties_for_sort sorted_sort)

lemma check_iff_mset:
  "check d w \<longleftrightarrow>
     mset (concat (map filenames (entries (config d)))) =
     mset (map stem (filter (\<lambda>t. \<not> is_in ''DS_Store'' t) (glob (raw_directory d) w)))"
  by (simp add: check_def required_files_def existing_files_def sorted_lists_eq_iff)

lemma stems_two_copies:
  "stem ''data/raw/boundaries/regions_2019.parquet'' = ''regions_2019''"
  "stem ''data/raw/backup/regions_2019.parquet'' = ''regions_2019''"
  by (simp_all add: stem_def name_def Let_def)

lemma glob_two_copies:
  "glob ''data/raw'' two_copies = files two_copies"
  by (simp add: glob_def two_copies_def below_def name_def)

lemma not_artifacts:
  "\<not> is_in ''DS_Store'' ''data/raw/boundaries/regions_2019.parquet''"
  "\<not> is_in ''DS_Store'' ''data/raw/backup/regions_2019.parquet''"
  by simp_all

text \<open>
  Claim C1. The code compares the two sorted lists, so multiplicity counts: with a
  required filename \<open>regions_2019\<close> and two files of that stem below the raw root, the
  required and the existing filenames are equal as sets, and \<open>check\<close> is false.
\<close>

theorem check_duplicate_stems:
  "required_files regions_downloader = [''regions_2019''] \<and>
   existing_files regions_downloader two_copies = [''regions_2019'', ''regions_2019''] \<and>
   set (required_files regions_downloader) = set (existing_files regions_downloader two_copies) \<and>
   \<not> check regions_downloader two_copies"
proof -
  have req: "required_files regions_downloader = [''regions_2019'']"
    by (simp add: required_files_def regions_downloader_def regions_handler_def filenames_def)
  have ex: "existing_files regions_downloader two_copies = [''regions_2019'', ''regions_2019'']"
    using glob_two_copies
    by (simp add: existing_files_def regions_downloader_def two_copies_def not_artifacts
        stems_two_copies del: is_in.simps)
  show ?thesis by (simp add: req ex check_def)
qed


section \<open>Properties of the handler\<close>

lemma page_loop_failed_first:
  assumes "0 < m" and "api (length log) = Fetch_failed"
  shows "page_loop api offs u m ps it raw ret log =
    Some (Inr (None, False),
      log @ [(u, encode_params (AList.update ''resultOffset'' (Num (offs * (it - 1))) ps))])"
  using retry_loop_failed [of 0 m api log] assms
  by (subst page_loop.simps) (simp add: Let_def)


text \<open>
  Claim C6. For a handler whose server is in the table of servers: if the paginated
  retrieval fails, \<open>execute\<close> returns \<open>False\<close> with the mapping that binds the output
  filename to the absent payload; and whenever \<open>execute\<close> returns, on success and on
  failure alike, the output filename is a key of the returned mapping.
\<close>

theorem execute_key_present:
  assumes "map_of GEOMETRY_SERVERS (server h) = Some suffix"
  shows "(iterative_geo_api_retrieve api (requests w) (query_params h) (offset h)
            (url (file h) @ filename h @ suffix) 3 = Some (Inr (gdf, False), log) \<longrightarrow>
          execute api h path w =
            Some (Inr (False, [output_filename h \<mapsto> None]), w\<lparr>requests := log\<rparr>)) \<and>
         (\<forall>status outputs w'.
            execute api h path w = Some (Inr (status, outputs), w') \<longrightarrow>
            output_filename h \<in> dom outputs \<and>
            (\<not> status \<longrightarrow> outputs (output_filename h) = Some None))"
  using assms
  by (auto simp: execute_def generate_data_path_def Let_def
      split: option.splits sum.splits prod.splits if_splits)

theorem execute_key_present_witness:
  "execute api_down regions_handler ''data/raw'' empty_store =
     Some (Inr (False, [output_filename regions_handler \<mapsto> None]),
       empty_store\<lparr>requests := requests empty_store @
         [(url (file regions_handler) @ filename regions_handler @ ''/FeatureServer/0/query?'',
           encode_params (AList.update ''resultOffset'' (Num (offset regions_handler * (1 - 1)))
             (query_params regions_handler)))]\<rparr>)"
proof -
  have srv: "map_of GEOMETRY_SERVERS (server regions_handler) = Some ''/FeatureServer/0/query?''"
    by (simp add: GEOMETRY_SERVERS_def regions_handler_def)
  have down: "api_down (length (requests empty_store)) = Fetch_failed"
    by (simp add: api_down_def)
  have ret: "iterative_geo_api_retrieve api_down (requests empty_store)
      (query_params regions_handler) (offset regions_handler)
      (url (file regions_handler) @ filename regions_handler @ ''/FeatureServer/0/query?'') 3 =
    Some (Inr (None, False), requests empty_store @
      [(url (file regions_handler) @ filename regions_handler @ ''/FeatureServer/0/query?'',
        encode_params (AList.update ''resultOffset'' (Num (offset regions_handler * (1 - 1)))
          (query_params regions_handler)))])"
    unfolding iterative_geo_api_retrieve_def
    using down by (intro page_loop_failed_first) simp_all
  from execute_key_present [OF srv, THEN conjunct1, rule_format, OF ret]
  show ?thesis .
qed



section \<open>Properties of the configuration model\<close>

lemma duplicate_filename_loop_url_warnings:
  "filter is_url_warning (duplicate_filename_loop fs seen warned) = filter is_url_warning warned"
  by (induction fs arbitrary: seen warned) (simp_all add: is_url_warning_def)

lemma find_duplicate_filename_url_warnings:
  "filter is_url_warning (find_duplicate_filename es) = []"
  by (simp add: find_duplicate_filename_def duplicate_filename_loop_url_warnings)

lemma find_duplicate_url_pair:
  assumes "class_name h1 \<noteq> ''ArcgisGeomHandler''" and "class_name h2 \<noteq> ''ArcgisGeomHandler''"
    and "class_name h1 = ''ZipHandler'' \<longleftrightarrow> class_name h2 = ''ZipHandler''"
    and "url (file h1) = url (file h2)"
  shows "find_duplicate_url [h1, h2] =
     [if class_name h1 = ''ZipHandler'' then Duplicate_zip_url (url (file h1))
      else Duplicate_url (url (file h1))]"
  using assms by (simp add: find_duplicate_url_def)

text \<open>
  Claim C9, as stated, fails: a \<open>ZipHandler\<close> entry and an entry of another class that
  is not exempt share a URL, and construction emits no warning at all, since the two
  classes are looked up in different lists.
\<close>

theorem duplicate_url_mixed_counterexample:
  "class_name zip_entry \<noteq> ''ArcgisGeomHandler'' \<and> class_name csv_entry \<noteq> ''ArcgisGeomHandler'' \<and>
   url (file zip_entry) = url (file csv_entry) \<and>
   post_init prebuilt [(''boundaries'', [zip_entry, csv_entry])] =
     Inr (\<lparr>entries = [zip_entry, csv_entry]\<rparr>, [])"
  by (simp add: post_init_def prebuilt_def find_duplicate_url_def find_duplicate_filename_def
      filenames_def zip_entry_def csv_entry_def)

text \<open>
  Claim C9, amended. When the entries built are exactly two handlers that share a URL
  and belong to the same category that is not exempt (both \<open>ZipHandler\<close>, or both of a
  class other than \<open>ZipHandler\<close> and \<open>ArcgisGeomHandler\<close>), construction succeeds with
  exactly one duplicate-URL warning and with both entries. For every document, the two
  passes do not abort: when all handlers are built, construction returns them unchanged.
\<close>

theorem duplicate_url_warning:
  assumes "build_entries construct config_file [] = Inr [h1, h2]"
    and "class_name h1 \<noteq> ''ArcgisGeomHandler''" and "class_name h2 \<noteq> ''ArcgisGeomHandler''"
    and "class_name h1 = ''ZipHandler'' \<longleftrightarrow> class_name h2 = ''ZipHandler''"
    and "url (file h1) = url (file h2)"
  shows "(\<exists>cfg warned. post_init construct config_file = Inr (cfg, warned) \<and>
            entries cfg = [h1, h2] \<and> length (entries cfg) = 2 \<and>
            length (filter is_url_warning warned) = 1) \<and>
         (\<forall>document es. build_entries construct document [] = Inr es \<longrightarrow>
            (\<exists>warned. post_init construct document = Inr (\<lparr>entries = es\<rparr>, warned)))"
proof
  have "length (filter is_url_warning (find_duplicate_url [h1, h2])) = 1"
    by (simp add: find_duplicate_url_pair [OF assms(2-5)] is_url_warning_def)
  then show "\<exists>cfg warned. post_init construct config_file = Inr (cfg, warned) \<and>
            entries cfg = [h1, h2] \<and> length (entries cfg) = 2 \<and>
            length (filter is_url_warning warned) = 1"
    using assms(1)
    by (simp add: post_init_def find_duplicate_filename_url_warnings)
  show "\<forall>document es. build_entries construct document [] = Inr es \<longrightarrow>
            (\<exists>warned. post_init construct document = Inr (\<lparr>entries = es\<rparr>, warned))"
    by (simp add: post_init_def)
qed

theorem duplicate_url_warning_witness:
  "\<exists>cfg warned.
      post_init prebuilt [(''boundaries'', [csv_entry, csv_entry\<lparr>output_filename := ''other_2019''\<rparr>])] =
        Inr (cfg, warned) \<and>
      entries cfg = [csv_entry, csv_entry\<lparr>output_filename := ''other_2019''\<rparr>] \<and>
      length (entries cfg) = 2 \<and>
      length (filter is_url_warning warned) = 1"
proof -
  have built: "build_entries prebuilt
      [(''boundaries'', [csv_entry, csv_entry\<lparr>output_filename := ''other_2019''\<rparr>])] [] =
      Inr [csv_entry, csv_entry\<lparr>output_filename := ''other_2019''\<rparr>]"
    by (simp add: prebuilt_def)
  have cls: "class_name csv_entry \<noteq> ''ArcgisGeomHandler''"
    "class_name (csv_entry\<lparr>output_filename := ''other_2019''\<rparr>) \<noteq> ''ArcgisGeomHandler''"
    "class_name csv_entry = ''ZipHandler'' \<longleftrightarrow>
       class_name (csv_entry\<lparr>output_filename := ''other_2019''\<rparr>) = ''ZipHandler''"
    "url (file csv_entry) = url (file (csv_entry\<lparr>output_filename := ''other_2019''\<rparr>))"
    by (simp_all add: csv_entry_def)
  from duplicate_url_warning [OF built cls, THEN conjunct1] show ?thesis .
qed


section \<open>Properties of the reconciliation engine\<close>

lemma find_entry_found:
  "f \<in> set (concat (map filenames es)) \<Longrightarrow>
     \<exists>h. find_entry es f = Inr h \<and> h \<in> set es \<and> f \<in> set (filenames h)"
  by (induction es) auto

lemma required_files_set:
  "set (required_files d) = set (concat (map filenames (entries (config d))))"
  by (simp add: required_files_def)

lemma required_file_found:
  "f \<in> set (required_files d) \<Longrightarrow> \<exists>h. find_file_config (config d) f = Inr h"
  using find_entry_found [of f "entries (config d)"]
  by (auto simp only: required_files_set find_file_config_def)

lemma missing_set:
  assumes "\<forall>xs. set (ord xs) = set xs"
  shows "set (missing ord d w) = set (required_files d) - set (existing_files d w)"
  using assms by (auto simp: missing_def)

lemma missing_distinct:
  assumes "\<forall>xs. mset (ord xs) = mset xs"
  shows "distinct (missing ord d w)"
proof -
  let ?xs = "remdups (filter (\<lambda>f. f \<notin> set (existing_files d w)) (required_files d))"
  have "mset (ord ?xs) = mset ?xs" using assms by blast
  then have "distinct (ord ?xs) = distinct ?xs" by (rule mset_eq_imp_distinct_iff)
  then show ?thesis by (simp add: missing_def)
qed

lemma retry_loop_raise:
  "retry_loop api rq m ret log rs = (Raise e, log') \<Longrightarrow> e = JSONDecodeError"
  by (induction rs arbitrary: ret log) (auto split: fetched.splits if_splits)

lemma page_loop_outcome:
  assumes "page_loop api offs u m ps it raw ret log = Some y"
  shows "\<forall>e. fst y = Inl e \<longrightarrow>
        e = JSONDecodeError \<or> e = UnboundLocalError \<or> e = KeyError ''features''"
  using assms
proof (rule page_loop.raw_induct [rotated, where P = "\<lambda>a b c d e f g h i y. \<forall>e. fst y = Inl e \<longrightarrow>
        e = JSONDecodeError \<or> e = UnboundLocalError \<or> e = KeyError ''features''"])
  fix loop :: "'a api \<Rightarrow> int \<Rightarrow> string \<Rightarrow> int \<Rightarrow> params \<Rightarrow> int \<Rightarrow> 'a json list \<Rightarrow> 'a json option
     \<Rightarrow> request list \<Rightarrow> ((py_error + 'a list option \<times> bool) \<times> request list) option"
  fix api offs base_url max_retries api_params iteration raw_data ret_json log y
  assume IH: "\<And>a b c d e f g h i y. loop a b c d e f g h i = Some y \<Longrightarrow>
      \<forall>e. fst y = Inl e \<longrightarrow>
        e = JSONDecodeError \<or> e = UnboundLocalError \<or> e = KeyError ''features''"
  assume step: "(let api_params' =
            AList.update ''resultOffset'' (Num (offs * (iteration - 1))) api_params
      in case retry_loop api (base_url, encode_params api_params')
               max_retries ret_json log [1..max_retries] of
         (Return r, log') \<Rightarrow> Some (Inr r, log')
         | (Raise e, log') \<Rightarrow> Some (Inl e, log')
         | (Proceed None, log') \<Rightarrow> Some (Inl UnboundLocalError, log')
         | (Proceed (Some j), log') \<Rightarrow>
             case features j of
             None \<Rightarrow> Some (Inl (KeyError ''features''), log')
             | Some fs \<Rightarrow>
                 if fs = []
                 then Some (Inr (Some (combine raw_data), True), log')
                 else if offs = 0
                      then Some (Inr (Some (combine (raw_data @ [j])), True), log')
                      else loop api offs base_url max_retries
                            api_params' (iteration + 1) (raw_data @ [j])
                            (Some j) log') = Some y"
  show "\<forall>e. fst y = Inl e \<longrightarrow>
        e = JSONDecodeError \<or> e = UnboundLocalError \<or> e = KeyError ''features''"
    using step IH
    by (auto simp: Let_def dest: retry_loop_raise
        split: prod.splits retry_exit.splits option.splits if_splits)
qed

lemma page_loop_errors:
  "page_loop api offs u m ps it raw ret log = Some (Inl e, log') \<Longrightarrow>
     e = JSONDecodeError \<or> e = UnboundLocalError \<or> e = KeyError ''features''"
  using page_loop_outcome [of api offs u m ps it raw ret log "(Inl e, log')"] by simp

lemma execute_errors:
  assumes "execute api h path w = Some (Inl e, w')"
  shows "e \<noteq> ValueError x"
proof (cases "map_of GEOMETRY_SERVERS (server h)")
  case None
  with assms show ?thesis by (auto simp: execute_def)
next
  case (Some suffix)
  with assms obtain log where
    "iterative_geo_api_retrieve api (requests w) (query_params h) (offset h)
        (url (file h) @ filename h @ suffix) 3 = Some (Inl e, log)"
    by (auto simp: execute_def generate_data_path_def Let_def
        split: option.splits sum.splits prod.splits if_splits)
  then show ?thesis
    unfolding iterative_geo_api_retrieve_def by (auto dest: page_loop_errors)
qed

lemma delete_data_errors:
  "delete_data fs w = (Some e, w') \<Longrightarrow> e \<noteq> ValueError x"
  by (induction fs arbitrary: w) (auto simp: unlink_def split: if_splits sum.splits)

lemma archive_files_errors:
  "archive_files ap fs w = (Some e, w') \<Longrightarrow> e \<noteq> ValueError x"
  by (induction fs arbitrary: w) (auto simp: rename_def split: if_splits sum.splits)

lemma dispose_errors:
  "dispose env d w = (Some e, w') \<Longrightarrow> e \<noteq> ValueError x"
  by (auto simp: dispose_def archive_data_def Let_def
      dest: delete_data_errors archive_files_errors split: if_splits)

lemma download_loop_no_value_error:
  assumes "\<forall>f\<in>set fs. \<exists>h. find_file_config (config d) f = Inr h"
    and "download_loop (execute api) fs st d w calls = Some r"
  shows "fst r \<noteq> Inl (ValueError x)"
  using assms
proof (induction fs arbitrary: st d w calls)
  case Nil
  then show ?case by auto
next
  case (Cons f fs)
  from Cons.prems(1) obtain h where h: "find_file_config (config d) f = Inr h" by auto
  show ?case
  proof (cases "execute api h (raw_directory d) w")
    case None
    with Cons.prems(2) h show ?thesis by simp
  next
    case (Some res)
    obtain out w' where res: "res = (out, w')" by (cases res)
    show ?thesis
    proof (cases out)
      case (Inl e)
      with Some res Cons.prems(2) h execute_errors [of api h "raw_directory d" w e w' x]
      show ?thesis by auto
    next
      case (Inr so)
      obtain status outputs where so: "so = (status, outputs)" by (cases so)
      let ?d = "if status then d\<lparr>data := data d ++ outputs\<rparr> else d"
      have cfg: "\<forall>f\<in>set fs. \<exists>h. find_file_config (config ?d) f = Inr h"
        using Cons.prems(1) by simp
      from Cons.prems(2) h Some res Inr so
      have "download_loop (execute api) fs (if \<not> status then False else st) ?d w'
          (calls @ [(f, h)]) = Some r"
        by simp
      from Cons.IH [OF cfg this] show ?thesis .
    qed
  qed
qed

lemma download_loop_calls:
  assumes "\<forall>h p w. exec h p w \<noteq> None"
    and "\<forall>f\<in>set fs. \<exists>h. find_file_config (config d) f = Inr h"
  shows "\<exists>out d' w' new.
     download_loop exec fs st d w calls = Some (out, d', w', calls @ new) \<and>
     (\<forall>(f, h)\<in>set new. find_file_config (config d) f = Inr h) \<and>
     (\<forall>status. out = Inr status \<longrightarrow> map fst new = fs)"
  using assms(2)
proof (induction fs arbitrary: st d w calls)
  case Nil
  show ?case by simp
next
  case (Cons f fs)
  from Cons.prems obtain h where h: "find_file_config (config d) f = Inr h" by auto
  from assms(1) have "exec h (raw_directory d) w \<noteq> None" by blast
  then obtain out w' where ex: "exec h (raw_directory d) w = Some (out, w')"
    by (cases "exec h (raw_directory d) w") auto
  show ?case
  proof (cases out)
    case (Inl err)
    with h ex have "download_loop exec (f # fs) st d w calls =
        Some (Inl err, d, w', calls @ [(f, h)])"
      by simp
    then show ?thesis using h by fastforce
  next
    case (Inr so)
    obtain status outputs where so: "so = (status, outputs)" by (cases so)
    let ?d = "if status then d\<lparr>data := data d ++ outputs\<rparr> else d"
    have cfg: "config ?d = config d" by simp
    have "\<forall>f\<in>set fs. \<exists>h. find_file_config (config ?d) f = Inr h"
      using Cons.prems by simp
    from Cons.IH [OF this, of "if \<not> status then False else st" w' "calls @ [(f, h)]"]
    obtain out' d' w'' new where rest:
      "download_loop exec fs (if \<not> status then False else st) ?d w' (calls @ [(f, h)]) =
         Some (out', d', w'', (calls @ [(f, h)]) @ new)"
      "\<forall>(f, h)\<in>set new. find_file_config (config ?d) f = Inr h"
      "\<forall>status. out' = Inr status \<longrightarrow> map fst new = fs"
      by blast
    have "download_loop exec (f # fs) st d w calls = Some (out', d', w'', calls @ (f, h) # new)"
      using h ex Inr so rest(1) by simp
    moreover have "\<forall>(f, h)\<in>set ((f, h) # new). find_file_config (config d) f = Inr h"
      using rest(2) h cfg by auto
    moreover have "\<forall>status. out' = Inr status \<longrightarrow> map fst ((f, h) # new) = f # fs"
      using rest(3) by simp
    ultimately show ?thesis by blast
  qed
qed

lemma page_loop_one_shot:
  assumes "0 < m" and "api (length log) = Fetched (Json (Some fs))" and "fs \<noteq> []"
  shows "page_loop api 0 u m ps it raw ret log =
    Some (Inr (Some (combine raw @ fs), True),
      log @ [(u, encode_params (AList.update ''resultOffset'' (Num 0) ps))])"
  using retry_loop_features [of 0 m api log fs] assms
  by (subst page_loop.simps) (simp add: Let_def combine_snoc from_features_def)

lemma execute_in_memory:
  assumes "map_of GEOMETRY_SERVERS (server h) = Some suffix" and "offset h = 0"
    and "\<not> write_to_disk (file h)"
  shows "execute api_one_feature h path w =
    Some (Inr (True, [output_filename h \<mapsto> Some [1]]),
      w\<lparr>requests := requests w @
        [(url (file h) @ filename h @ suffix,
          encode_params (AList.update ''resultOffset'' (Num 0) (query_params h)))]\<rparr>)"
proof -
  have "iterative_geo_api_retrieve api_one_feature (requests w) (query_params h) 0
      (url (file h) @ filename h @ suffix) 3 =
    Some (Inr (Some [1], True), requests w @
        [(url (file h) @ filename h @ suffix,
          encode_params (AList.update ''resultOffset'' (Num 0) (query_params h)))])"
    unfolding iterative_geo_api_retrieve_def
    by (subst page_loop_one_shot [where fs = "[1]"]) (simp_all add: api_one_feature_def combine_def)
  then show ?thesis using assms by (simp add: execute_def)
qed

lemma example_servers:
  "map_of GEOMETRY_SERVERS (server regions_handler) = Some ''/FeatureServer/0/query?''"
  "map_of GEOMETRY_SERVERS (server wards_handler) = Some ''/FeatureServer/0/query?''"
  by (simp_all add: GEOMETRY_SERVERS_def regions_handler_def wards_handler_def)

lemma example_in_memory:
  "offset regions_handler = 0" "\<not> write_to_disk (file regions_handler)"
  "offset wards_handler = 0" "\<not> write_to_disk (file wards_handler)"
  "output_filename regions_handler = ''regions_2019''"
  "output_filename wards_handler = ''wards_2019''"
  by (simp_all add: regions_handler_def wards_handler_def)

lemma two_required: "required_files two_downloader = [''regions_2019'', ''wards_2019'']"
  by (simp add: required_files_def two_downloader_def filenames_def example_in_memory)

lemma nothing_stored: "existing_files d (w\<lparr>files := []\<rparr>) = []" "old_data d (w\<lparr>files := []\<rparr>) = []"
  by (simp_all add: existing_files_def old_data_def glob_def)

lemma execute_down_returns: "execute api_down h p w \<noteq> None"
proof (cases "map_of GEOMETRY_SERVERS (server h)")
  case None
  then show ?thesis by (simp add: execute_def)
next
  case (Some suffix)
  have "iterative_geo_api_retrieve api_down (requests w) (query_params h) (offset h)
      (url (file h) @ filename h @ suffix) 3 \<noteq> None"
    unfolding iterative_geo_api_retrieve_def
    by (subst page_loop_failed_first) (simp_all add: api_down_def)
  then show ?thesis using Some
    by (auto simp: execute_def generate_data_path_def Let_def split: sum.splits prod.splits)
qed

lemma two_start:
  "\<not> check two_downloader empty_store"
  "dispose reversing two_downloader empty_store = (None, empty_store)"
  "missing (set_order reversing) two_downloader empty_store = [''wards_2019'', ''regions_2019'']"
proof -
  have st: "empty_store = empty_store\<lparr>files := []\<rparr>" by (simp add: empty_store_def)
  have ex: "existing_files two_downloader empty_store = []" "old_data two_downloader empty_store = []"
    by (subst st, rule nothing_stored)+
  have del: "\<not> archive two_downloader" by (simp add: two_downloader_def)
  show "\<not> check two_downloader empty_store"
    by (simp add: check_def two_required ex)
  show "dispose reversing two_downloader empty_store = (None, empty_store)"
    by (simp add: dispose_def ex del)
  show "missing (set_order reversing) two_downloader empty_store =
      [''wards_2019'', ''regions_2019'']"
    by (simp add: missing_def two_required ex reversing_def)
qed

lemma two_update:
  "\<exists>d' w'. update (execute api_one_feature) reversing two_downloader empty_store =
     Some (Inr True, d', w',
       [(''wards_2019'', wards_handler), (''regions_2019'', regions_handler)])"
proof -
  have find: "find_file_config (config two_downloader) ''wards_2019'' = Inr wards_handler"
     "find_file_config (config two_downloader) ''regions_2019'' = Inr regions_handler"
    by (simp_all add: find_file_config_def two_downloader_def filenames_def example_in_memory)
  show ?thesis
    by (simp add: update_def two_start find
        execute_in_memory [OF example_servers(1) example_in_memory(1,2)]
        execute_in_memory [OF example_servers(2) example_in_memory(3,4)])
qed


section \<open>Properties of the update\<close>

text \<open>
  Claim C10. When the iteration over a set yields the elements of the set, every
  filename that \<open>missing\<close> returns is a required filename and \<open>find_file_config\<close> finds a
  handler for it; and \<open>update\<close>, run with the handler's \<open>execute\<close>, never raises the
  \<open>ValueError\<close> of \<open>find_file_config\<close>, whatever else it returns or raises.
\<close>

theorem update_never_filename_not_found:
  assumes "\<forall>xs. set (set_order e xs) = set xs"
  shows "(\<forall>w'. \<forall>f\<in>set (missing (set_order e) d w').
            f \<in> set (required_files d) \<and> (\<exists>h. find_file_config (config d) f = Inr h)) \<and>
         (\<forall>r fname. update (execute api) e d w = Some r \<longrightarrow> fst r \<noteq> Inl (ValueError fname))"
proof (intro conjI allI ballI impI)
  fix w' f assume "f \<in> set (missing (set_order e) d w')"
  then show "f \<in> set (required_files d)" by (simp add: missing_set [OF assms])
  then show "\<exists>h. find_file_config (config d) f = Inr h" by (rule required_file_found)
next
  fix r fname assume r: "update (execute api) e d w = Some r"
  show "fst r \<noteq> Inl (ValueError fname)"
  proof (cases "check d w")
    case True
    with r show ?thesis by (auto simp: update_def)
  next
    case False
    obtain err w1 where disp: "dispose e d w = (err, w1)" by (cases "dispose e d w")
    show ?thesis
    proof (cases err)
      case None
      have found: "\<forall>f\<in>set (missing (set_order e) d w1). \<exists>h. find_file_config (config d) f = Inr h"
        by (auto simp: missing_set [OF assms] intro: required_file_found)
      from r False disp None
      have "download_loop (execute api) (missing (set_order e) d w1) True d w1 [] = Some r"
        by (simp add: update_def)
      from download_loop_no_value_error [OF found this] show ?thesis .
    next
      case (Some e')
      with r False disp dispose_errors [of e d w e' w1 fname] show ?thesis
        by (auto simp: update_def)
    qed
  qed
qed

theorem update_never_filename_not_found_witness:
  "''wards_2019'' \<in> set (required_files two_downloader) \<and>
   (\<exists>h. find_file_config (config two_downloader) ''wards_2019'' = Inr h) \<and>
   (\<exists>out d' w' calls.
      update (execute api_one_feature) reversing two_downloader empty_store =
        Some (out, d', w', calls) \<and>
      out \<noteq> Inl (ValueError ''wards_2019''))"
proof -
  have "\<forall>xs. set (set_order reversing xs) = set xs" by (simp add: reversing_def)
  note never = update_never_filename_not_found [OF this, of two_downloader api_one_feature
      empty_store]
  have "''wards_2019'' \<in> set (missing (set_order reversing) two_downloader empty_store)"
    by (simp add: two_start)
  with never have found: "''wards_2019'' \<in> set (required_files two_downloader) \<and>
      (\<exists>h. find_file_config (config two_downloader) ''wards_2019'' = Inr h)"
    by blast
  from two_update obtain d' w' where
    up: "update (execute api_one_feature) reversing two_downloader empty_store =
      Some (Inr True, d', w',
        [(''wards_2019'', wards_handler), (''regions_2019'', regions_handler)])"
    by blast
  with never have "fst (Inr True :: py_error + bool, d', w',
      [(''wards_2019'', wards_handler), (''regions_2019'', regions_handler)]) \<noteq>
        Inl (ValueError ''wards_2019'')"
    by blast
  with found up show ?thesis by auto
qed

text \<open>
  Claim C5, amended. Let the iteration over a set yield each element once and let every
  call of \<open>execute\<close> return. Then \<open>update\<close> returns; every call of \<open>execute\<close> it made was
  made on the handler that \<open>find_file_config\<close> gives for the filename; and when it
  returns a status without being up to date, the filenames were processed in the order
  in which \<open>missing\<close> returned them after the disposal of the old files, which is the
  order of iteration of a set (not a sorted order): each missing filename exactly once.
\<close>

theorem update_processes_missing:
  assumes "\<forall>xs. mset (set_order e xs) = mset xs"
    and "\<forall>h p w. exec h p w \<noteq> None"
  shows "\<exists>out d' w' calls.
     update exec e d w = Some (out, d', w', calls) \<and>
     (\<forall>(f, h)\<in>set calls. find_file_config (config d) f = Inr h) \<and>
     (check d w \<longrightarrow> calls = []) \<and>
     (\<forall>status. out = Inr status \<and> \<not> check d w \<longrightarrow>
        map fst calls = missing (set_order e) d (snd (dispose e d w)) \<and>
        distinct (map fst calls) \<and>
        set (map fst calls) =
          set (required_files d) - set (existing_files d (snd (dispose e d w))))"
proof (cases "check d w")
  case True
  then show ?thesis by (simp add: update_def)
next
  case False
  have sets: "\<forall>xs. set (set_order e xs) = set xs"
    using assms(1) by (blast dest: mset_eq_setD)
  obtain err w1 where disp: "dispose e d w = (err, w1)" by (cases "dispose e d w")
  show ?thesis
  proof (cases err)
    case (Some e')
    with False disp show ?thesis by (simp add: update_def)
  next
    case None
    have found: "\<forall>f\<in>set (missing (set_order e) d w1). \<exists>h. find_file_config (config d) f = Inr h"
      by (auto simp: missing_set [OF sets] intro: required_file_found)
    from download_loop_calls [OF assms(2) found, of True w1 "[]"]
    obtain out d' w' new where loop:
      "download_loop exec (missing (set_order e) d w1) True d w1 [] = Some (out, d', w', new)"
      "\<forall>(f, h)\<in>set new. find_file_config (config d) f = Inr h"
      "\<forall>status. out = Inr status \<longrightarrow> map fst new = missing (set_order e) d w1"
      by auto
    have "update exec e d w = Some (out, d', w', new)"
      using False disp None loop(1) by (simp add: update_def)
    moreover have "\<forall>status. out = Inr status \<and> \<not> check d w \<longrightarrow>
        map fst new = missing (set_order e) d (snd (dispose e d w)) \<and>
        distinct (map fst new) \<and>
        set (map fst new) = set (required_files d) - set (existing_files d (snd (dispose e d w)))"
      using loop(3) disp missing_distinct [OF assms(1), of d w1] missing_set [OF sets, of d w1]
      by auto
    ultimately show ?thesis using loop(2) False by blast
  qed
qed


theorem update_processes_missing_witness:
  "\<exists>out d' w' calls.
     update (execute api_down) reversing two_downloader empty_store = Some (out, d', w', calls) \<and>
     (\<forall>(f, h)\<in>set calls. find_file_config (config two_downloader) f = Inr h) \<and>
     (check two_downloader empty_store \<longrightarrow> calls = []) \<and>
     (\<forall>status. out = Inr status \<and> \<not> check two_downloader empty_store \<longrightarrow>
        map fst calls =
          missing (set_order reversing) two_downloader
            (snd (dispose reversing two_downloader empty_store)) \<and>
        distinct (map fst calls) \<and>
        set (map fst calls) =
          set (required_files two_downloader) -
          set (existing_files two_downloader (snd (dispose reversing two_downloader empty_store))))"
proof -
  have perm: "\<forall>xs. mset (set_order reversing xs) = mset xs" by (simp add: reversing_def)
  have total: "\<forall>h p w. execute api_down h p w \<noteq> None"
    using execute_down_returns by blast
  from update_processes_missing [OF perm total] show ?thesis .
qed

text \<open>
  Claim C5, as stated, fails: \<open>missing\<close> does not sort, and with a set iteration that
  yields \<open>wards_2019\<close> before \<open>regions_2019\<close> the files are processed in that order.
\<close>

theorem update_order_counterexample:
  "processed (update (execute api_one_feature) reversing two_downloader empty_store) =
     [''wards_2019'', ''regions_2019''] \<and>
   sort [''wards_2019'', ''regions_2019''] \<noteq> [''wards_2019'', ''regions_2019'']"
proof -
  from two_update
  have "processed (update (execute api_one_feature) reversing two_downloader empty_store) =
     [''wards_2019'', ''regions_2019'']"
    by (auto simp: processed_def)
  moreover have "sort [''wards_2019'', ''regions_2019''] \<noteq> [''wards_2019'', ''regions_2019'']"
    by simp
  ultimately show ?thesis by simp
qed


section \<open>Two updates in a row\<close>





























end
